theory Spec2Isabelle
  imports Main
begin

section \<open>Comment trees: \<open>RedditCrawler._parse_comment\<close>\<close>

text \<open>
  The structured post endpoint returns a forest of comment nodes. A node is a JSON object
  with an optional \<open>kind\<close> tag and an optional \<open>data\<close> object; the \<open>replies\<close> field of
  \<open>data\<close> is absent, or something that is not an object (Reddit sends the empty string
  for a comment without replies), or a listing object whose \<open>data.children\<close> is the list
  of child nodes (a listing without \<open>data\<close> or without \<open>children\<close> has the children
  \<open>[]\<close>, as the two \<open>.get\<close> defaults of the source give).
\<close>

datatype raw_comment =
  RawComment (kind: "string option") (cdata: "raw_data option")
and raw_data =
  RawData (d_author: "string option") (d_body: "string option") (d_score: "int option")
    (d_created_utc: "int option") (d_replies: raw_replies)
and raw_replies =
  RepliesAbsent | RepliesNotDict | RepliesDict "raw_comment list"

datatype comment =
  Comment (c_author: string) (c_text: string) (c_score: int) (c_created_time: string)
    (c_replies: "comment list") (c_reply_count: nat)

text \<open>
  \<open>_convert_time\<close>: a falsy timestamp (absent, or 0) gives \<open>N/A\<close>; otherwise the local-time
  formatting of the standard library is used, which is a parameter here
  (\<open>None\<close> when \<open>fromtimestamp\<close> raises, which the source turns into \<open>N/A\<close>).
\<close>

definition convert_time :: "(int \<Rightarrow> string option) \<Rightarrow> int \<Rightarrow> string" where
  "convert_time fromtimestamp timestamp =
     (if timestamp = 0 then ''N/A''
      else case fromtimestamp timestamp of None \<Rightarrow> ''N/A'' | Some s \<Rightarrow> s)"

text \<open>\<open>data.get(key, default)\<close>.\<close>

definition get_or :: "'a option \<Rightarrow> 'a \<Rightarrow> 'a" where
  "get_or v dflt = (case v of None \<Rightarrow> dflt | Some x \<Rightarrow> x)"

text \<open>The default text of a comment without body, \<open>[\<dots>]\<close> around three CJK characters, in UTF-8.\<close>

definition no_text :: string where
  "no_text = [CHR ''['', CHR 0xE6, CHR 0x97, CHR 0xA0, CHR 0xE6, CHR 0x96, CHR 0x87,
              CHR 0xE6, CHR 0x9C, CHR 0xAC, CHR '']'']"

text \<open>The \<open>if child_parsed: \<dots>append(child_parsed)\<close> of the loops over children.\<close>

fun keep_parsed :: "'a option list \<Rightarrow> 'a list" where
  "keep_parsed [] = []"
| "keep_parsed (None # xs) = keep_parsed xs"
| "keep_parsed (Some x # xs) = x # keep_parsed xs"

text \<open>The \<open>data = comment_data.get('data', {})\<close> of the source: an absent \<open>data\<close> is the empty object.\<close>

definition data_of :: "raw_comment \<Rightarrow> raw_data" where
  "data_of c = get_or (cdata c) (RawData None None None None RepliesAbsent)"

fun parse_comment :: "(int \<Rightarrow> string option) \<Rightarrow> raw_comment \<Rightarrow> comment option" where
  "parse_comment fts (RawComment k d) =
     (if k = Some ''more'' then None
      else
        let rs = (case d of
                    Some (RawData a b s t (RepliesDict children)) \<Rightarrow>
                      keep_parsed (map (parse_comment fts) children)
                  | _ \<Rightarrow> [])
        in Some (Comment
             (get_or (d_author (data_of (RawComment k d))) ''[Deleted]'')
             (get_or (d_body (data_of (RawComment k d))) no_text)
             (get_or (d_score (data_of (RawComment k d))) 0)
             (convert_time fts (get_or (d_created_utc (data_of (RawComment k d))) 0))
             rs
             (length rs)))"

text \<open>
  What the claims about the comment tree speak of: a placeholder node, the child nodes of a
  raw node, a parsed tree whose every \<open>reply_count\<close> is the number of its replies, and a
  parsed tree that mirrors the raw tree with the placeholders (and what hangs below them)
  left out, at every level.
\<close>

definition is_more :: "raw_comment \<Rightarrow> bool" where
  "is_more c = (kind c = Some ''more'')"

fun children_of :: "raw_comment \<Rightarrow> raw_comment list" where
  "children_of (RawComment k (Some (RawData a b s t (RepliesDict cs)))) = cs"
| "children_of c = []"

fun counts_exact :: "comment \<Rightarrow> bool" where
  "counts_exact (Comment a t s ct rs n) = (n = length rs \<and> list_all counts_exact rs)"

fun mirrors :: "raw_comment \<Rightarrow> comment \<Rightarrow> bool"
  and mirrors_list :: "raw_comment list \<Rightarrow> comment list \<Rightarrow> bool" where
  "mirrors r (Comment a t s ct rs n) =
     (\<not> is_more r \<and> n = length rs \<and>
      mirrors_list (filter (\<lambda>c. \<not> is_more c) (children_of r)) rs)"
| "mirrors_list [] [] = True"
| "mirrors_list (c # cs) (p # ps) = (mirrors c p \<and> mirrors_list cs ps)"
| "mirrors_list [] (p # ps) = False"
| "mirrors_list (c # cs) [] = False"

text \<open>A fixture forest: a placeholder among the top-level replies and two at depth 2.\<close>

definition fixture_more :: raw_comment where
  "fixture_more = RawComment (Some ''more'') (Some (RawData None None None None RepliesAbsent))"

definition fixture_leaf :: raw_comment where
  "fixture_leaf = RawComment (Some ''t1'') (Some (RawData (Some ''bob'') (Some ''yes'') (Some 3) None RepliesNotDict))"

definition fixture_tree :: raw_comment where
  "fixture_tree =
     RawComment (Some ''t1'') (Some (RawData (Some ''ann'') (Some ''hello'') (Some 7) None
       (RepliesDict [fixture_leaf,
          RawComment (Some ''t1'') (Some (RawData (Some ''cy'') (Some ''deep'') (Some 1) None
            (RepliesDict [fixture_more, fixture_leaf, fixture_more]))),
          fixture_more])))"

section \<open>Files, exceptions and the checkpoint document\<close>

text \<open>
  A file on disk is absent, or holds a document, or holds bytes that \<open>json.load\<close> rejects
  (the file that \<open>open(path, 'w')\<close> has emptied and a \<open>json.dump\<close> that did not finish
  leaves behind). A write with \<open>with open(path, 'w') as f: json.dump(doc, f)\<close> has three
  outcomes: it succeeds; \<open>open\<close> raises and the file is as before; or \<open>open\<close> has emptied
  the file and \<open>json.dump\<close> raises before the document is complete.
\<close>

datatype 'a disk_file = Absent | Unreadable | Content 'a

datatype write_outcome = WriteOk | OpenFails | DumpFails

text \<open>
  The exceptions the handlers of the source tell apart: \<open>KeyboardInterrupt\<close>, which no
  \<open>except Exception\<close> catches, and every other exception.
\<close>

datatype exn = KeyboardInterrupt | Exception

text \<open>
  The outcome of a piece of code: it returns, or it raises with the state as it is at the
  raise, or the process stops there (the recorded environment of the run ends: the
  process was killed, and no handler and no \<open>finally\<close> block runs).
\<close>

datatype 'a outcome = Returns 'a | Raises exn 'a | Killed 'a

text \<open>\<open>try: \<dots> except Exception as e: logging.\<dots>(e)\<close>: the exception is logged and dropped.\<close>

fun except_Exception :: "'a outcome \<Rightarrow> 'a outcome" where
  "except_Exception (Raises Exception s) = Returns s"
| "except_Exception r = r"

fun write_file :: "write_outcome \<Rightarrow> 'a \<Rightarrow> 'a disk_file \<Rightarrow> 'a disk_file outcome" where
  "write_file WriteOk doc f = Returns (Content doc)"
| "write_file OpenFails doc f = Raises Exception f"
| "write_file DumpFails doc f = Raises Exception Unreadable"

text \<open>
  The contents of the file, one after the other, while
  \<open>with open(path, 'w') as f: json.dump(doc, f)\<close> runs: what it held before; emptied by
  \<open>open\<close> and then written in part; the complete document. A process that is killed
  during the write leaves one of them on disk. There is no temporary file and no rename
  in the source.
\<close>

definition states_during_write :: "'a \<Rightarrow> 'a disk_file \<Rightarrow> 'a disk_file list" where
  "states_during_write doc f = [f, Unreadable, Content doc]"

text \<open>
  An entry of the URL list is the object \<open>{"url": \<dots>, "created_utc": \<dots>}\<close>; the entry
  made for a single-post target has no \<open>created_utc\<close>.
\<close>

record url_item =
  url :: string
  created_utc :: "int option"

text \<open>
  The \<open>url_collection_progress\<close> object of the state file. \<open>collected_post_ids\<close> is
  written as \<open>list(set)\<close>, in no particular order, and read back with \<open>set.update\<close>,
  so it is a set here. The wall-clock fields (\<open>last_collection_time\<close>, \<open>last_updated\<close>)
  and the constant \<open>subreddit_name\<close> are never read back and are left out.
\<close>

record collection_progress =
  collected_count :: nat
  target_count :: int
  latest_post_timestamp :: "int option"
  before_timestamp :: "int option"
  collected_post_ids :: "string set"
  cp_is_collection_complete :: bool

record state_data =
  current_post_index :: int
  collected_urls_with_source :: "url_item list"
  total_collected :: nat
  sd_total_crawled_count :: nat
  sd_max_posts :: int
  url_collection_progress :: "collection_progress option"
  is_collection_complete :: bool

text \<open>
  The fields of a \<open>RedditCrawler\<close> that the crawl reads and writes, with the two files it
  owns and the outcomes of the writes to come (a write after the end of the list succeeds).
  \<open>'p\<close> is the type of a fetched post record.
\<close>

record 'p crawler =
  subreddit_url :: string
  max_posts :: int
  all_posts_data :: "'p list"
  total_crawled_count :: nat
  state_file :: "state_data disk_file"
  output_file :: "'p list disk_file"
  writes :: "write_outcome list"

definition next_write :: "'p crawler \<Rightarrow> write_outcome \<times> 'p crawler" where
  "next_write c =
     (case writes c of [] \<Rightarrow> (WriteOk, c) | w # ws \<Rightarrow> (w, c\<lparr>writes := ws\<rparr>))"

text \<open>\<open>with open(self.state_file, 'w') as f: json.dump(state_data, f)\<close>.\<close>

definition write_state_file :: "'p crawler \<Rightarrow> state_data \<Rightarrow> 'p crawler outcome" where
  "write_state_file c doc =
     (let (w, c1) = next_write c in
      case write_file w doc (state_file c1) of
        Returns f \<Rightarrow> Returns (c1\<lparr>state_file := f\<rparr>)
      | Raises e f \<Rightarrow> Raises e (c1\<lparr>state_file := f\<rparr>)
      | Killed f \<Rightarrow> Killed (c1\<lparr>state_file := f\<rparr>))"

definition write_output_file :: "'p crawler \<Rightarrow> 'p list \<Rightarrow> 'p crawler outcome" where
  "write_output_file c doc =
     (let (w, c1) = next_write c in
      case write_file w doc (output_file c1) of
        Returns f \<Rightarrow> Returns (c1\<lparr>output_file := f\<rparr>)
      | Raises e f \<Rightarrow> Raises e (c1\<lparr>output_file := f\<rparr>)
      | Killed f \<Rightarrow> Killed (c1\<lparr>output_file := f\<rparr>))"

subsection \<open>\<open>save_progress\<close>\<close>

text \<open>
  The body of the \<open>try\<close> of \<open>save_progress\<close>, and the method with its handler.
  \<open>if collection_progress:\<close> is false for \<open>None\<close> and for the empty object, which are
  both \<open>None\<close> here.
\<close>

definition state_document ::
  "'p crawler \<Rightarrow> int \<Rightarrow> url_item list \<Rightarrow> bool \<Rightarrow> collection_progress option \<Rightarrow> state_data" where
  "state_document c current_index url_list complete progress =
     \<lparr>current_post_index = current_index,
      collected_urls_with_source = url_list,
      total_collected = length url_list,
      sd_total_crawled_count = total_crawled_count c,
      sd_max_posts = max_posts c,
      url_collection_progress = progress,
      is_collection_complete = complete\<rparr>"

definition save_progress_try ::
  "'p crawler \<Rightarrow> int \<Rightarrow> url_item list \<Rightarrow> bool \<Rightarrow> collection_progress option \<Rightarrow> 'p crawler outcome" where
  "save_progress_try c current_index url_list complete progress =
     write_state_file c (state_document c current_index url_list complete progress)"

definition save_progress ::
  "'p crawler \<Rightarrow> int \<Rightarrow> url_item list \<Rightarrow> bool \<Rightarrow> collection_progress option \<Rightarrow> 'p crawler outcome" where
  "save_progress c current_index url_list complete progress =
     except_Exception (save_progress_try c current_index url_list complete progress)"

subsection \<open>\<open>update_progress_index\<close>\<close>

definition updated_document :: "'p crawler \<Rightarrow> state_data \<Rightarrow> int \<Rightarrow> state_data" where
  "updated_document c sd current_index =
     sd\<lparr>current_post_index := current_index,
        sd_total_crawled_count := total_crawled_count c\<rparr>"

definition update_progress_index_try :: "'p crawler \<Rightarrow> int \<Rightarrow> 'p crawler outcome" where
  "update_progress_index_try c current_index =
     (case state_file c of
        Absent \<Rightarrow> Raises Exception c
      | Unreadable \<Rightarrow> Raises Exception c
      | Content sd \<Rightarrow> write_state_file c (updated_document c sd current_index))"

definition update_progress_index :: "'p crawler \<Rightarrow> int \<Rightarrow> 'p crawler outcome" where
  "update_progress_index c current_index =
     except_Exception (update_progress_index_try c current_index)"

subsection \<open>\<open>save_data\<close>\<close>

text \<open>
  The data already in the output file: \<open>[]\<close> when the file is absent, and also when
  reading it raises (the inner \<open>except Exception: pass\<close>).
\<close>

definition existing_data :: "'p crawler \<Rightarrow> 'p list" where
  "existing_data c = (case output_file c of Content ps \<Rightarrow> ps | _ \<Rightarrow> [])"

definition save_data_try :: "'p crawler \<Rightarrow> int \<Rightarrow> 'p crawler outcome" where
  "save_data_try c current_index =
     (if all_posts_data c = [] then Returns c
      else
        case write_output_file c (existing_data c @ all_posts_data c) of
          Returns c1 \<Rightarrow>
            update_progress_index
              (c1\<lparr>total_crawled_count := total_crawled_count c1 + length (all_posts_data c1),
                  all_posts_data := []\<rparr>)
              current_index
        | r \<Rightarrow> r)"

definition save_data :: "'p crawler \<Rightarrow> int \<Rightarrow> 'p crawler outcome" where
  "save_data c current_index = except_Exception (save_data_try c current_index)"

subsection \<open>\<open>load_progress\<close>\<close>

text \<open>
  The result of \<open>load_progress\<close>: the tuple it returns and the crawler, whose
  \<open>total_crawled_count\<close> it sets as soon as the state file has been read. The
  \<open>ValueError\<close> raised for an incomplete collection without \<open>url_collection_progress\<close>
  is caught by the method's own \<open>except Exception: pass\<close>, as is every failure to read the
  file, and the method then returns \<open>(1, [], False, {})\<close>.
\<close>

record 'p loaded =
  ld_index :: int
  ld_urls :: "url_item list"
  ld_complete :: bool
  ld_progress :: "collection_progress option"
  ld_crawler :: "'p crawler"

definition load_progress :: "'p crawler \<Rightarrow> 'p loaded" where
  "load_progress c =
     (case state_file c of
        Content sd \<Rightarrow>
          (let current_index = current_post_index sd;
               url_list = collected_urls_with_source sd;
               c1 = c\<lparr>total_crawled_count := sd_total_crawled_count sd\<rparr>;
               progress = url_collection_progress sd;
               complete = (int (length url_list) \<ge> max_posts c)
           in
             if complete \<and> current_index \<le> int (length url_list) then
               \<lparr>ld_index = current_index, ld_urls = url_list, ld_complete = True,
                ld_progress = progress, ld_crawler = c1\<rparr>
             else if \<not> complete then
               (case progress of
                  Some p \<Rightarrow>
                    \<lparr>ld_index = 1, ld_urls = url_list, ld_complete = False,
                     ld_progress = progress, ld_crawler = c1\<rparr>
                | None \<Rightarrow>
                    \<lparr>ld_index = 1, ld_urls = [], ld_complete = False,
                     ld_progress = None, ld_crawler = c1\<rparr>)
             else
               \<lparr>ld_index = 1, ld_urls = url_list, ld_complete = True,
                ld_progress = progress, ld_crawler = c1\<rparr>)
      | _ \<Rightarrow>
          \<lparr>ld_index = 1, ld_urls = [], ld_complete = False,
           ld_progress = None, ld_crawler = c\<rparr>)"

section \<open>Phase 1: \<open>collect_post_urls\<close>\<close>

subsection \<open>Strings: containment and the two regular expressions\<close>

text \<open>\<open>sub in s\<close> of Python, on strings.\<close>

fun contains :: "string \<Rightarrow> string \<Rightarrow> bool" where
  "contains sub [] = (sub = [])"
| "contains sub (c # cs) = (take (length sub) (c # cs) = sub \<or> contains sub cs)"

definition is_alnum :: "char \<Rightarrow> bool" where
  "is_alnum c =
     (c \<in> set ''abcdefghijklmnopqrstuvwxyzABCDEFGHIJKLMNOPQRSTUVWXYZ0123456789'')"

text \<open>
  \<open>_extract_post_id\<close>: \<open>re.search(r'/comments/([a-zA-Z0-9]+)/', url)\<close>, the group of the
  leftmost match or \<open>None\<close>. At a given position the pattern matches when the text there is
  \<open>/comments/\<close>, then a non-empty run of letters and digits, then \<open>/\<close>; the run the
  greedy \<open>+\<close> takes is the longest one, and no shorter run can be followed by \<open>/\<close>,
  which is neither letter nor digit.
\<close>

definition post_id_here :: "string \<Rightarrow> string option" where
  "post_id_here s =
     (if take 10 s = ''/comments/'' then
        (let run = takeWhile is_alnum (drop 10 s); rest = dropWhile is_alnum (drop 10 s)
         in if run \<noteq> [] \<and> take 1 rest = ''/'' then Some run else None)
      else None)"

fun extract_post_id :: "string \<Rightarrow> string option" where
  "extract_post_id [] = None"
| "extract_post_id (c # cs) =
     (case post_id_here (c # cs) of Some i \<Rightarrow> Some i | None \<Rightarrow> extract_post_id cs)"

text \<open>
  \<open>_extract_subreddit_name\<close>: \<open>re.search(r'/r/([^/]+)', url)\<close>, with the default
  \<open>unknown_subreddit\<close>.
\<close>

definition subreddit_here :: "string \<Rightarrow> string option" where
  "subreddit_here s =
     (if take 3 s = ''/r/'' \<and> takeWhile (\<lambda>c. c \<noteq> CHR ''/'') (drop 3 s) \<noteq> []
      then Some (takeWhile (\<lambda>c. c \<noteq> CHR ''/'') (drop 3 s)) else None)"

fun search_subreddit :: "string \<Rightarrow> string option" where
  "search_subreddit [] = None"
| "search_subreddit (c # cs) =
     (case subreddit_here (c # cs) of Some n \<Rightarrow> Some n | None \<Rightarrow> search_subreddit cs)"

definition extract_subreddit_name :: "string \<Rightarrow> string" where
  "extract_subreddit_name u = get_or (search_subreddit u) ''unknown_subreddit''"

subsection \<open>The search API\<close>

text \<open>
  An item of a page of the search API, with the three fields the collector reads; a field
  is \<open>None\<close> when the item has no such key. A request to the API ends in one of these
  ways: a response with a status code whose body is JSON with the list \<open>data\<close> (no
  \<open>data\<close> key is the empty list) or is not JSON; a timeout; another
  \<open>RequestException\<close>; a \<open>KeyboardInterrupt\<close> while the request or the pause after it
  is under way.
\<close>

record api_post =
  p_id :: "string option"
  p_permalink :: "string option"
  p_created_utc :: "int option"

datatype body = NotJson | Json "api_post list"

datatype response = Http int body | Timeout | RequestException | Interrupted

text \<open>
  The local variables of \<open>collect_post_urls\<close> (\<open>before\<close> is \<open>before_cursor\<close> and
  \<open>collected_post_ids\<close> is \<open>collected_ids\<close> here).
\<close>

record collect_state =
  collected_urls :: "url_item list"
  before_cursor :: "int option"
  collected_ids :: "string set"
  consecutive_errors :: nat
  last_save_count :: nat

text \<open>Python's truth value of an optional number.\<close>

definition truthy_int :: "int option \<Rightarrow> bool" where
  "truthy_int v = (case v of None \<Rightarrow> False | Some n \<Rightarrow> n \<noteq> 0)"

text \<open>The identifiers \<open>_extract_post_id\<close> finds in the URLs of a list of candidates.\<close>

definition ids_of_urls :: "url_item list \<Rightarrow> string set" where
  "ids_of_urls us = set (keep_parsed (map (\<lambda>u. extract_post_id (url u)) us))"

subsection \<open>\<open>save_url_collection_progress\<close>\<close>

text \<open>\<open>a or b\<close> on optional numbers.\<close>

definition or_else :: "int option \<Rightarrow> int option \<Rightarrow> int option" where
  "or_else a b = (if truthy_int a then a else b)"

definition progress_of :: "url_item list \<Rightarrow> int option \<Rightarrow> int \<Rightarrow> collection_progress" where
  "progress_of urls before_ts target =
     (let latest =
            (if urls = [] then None
             else case created_utc (last urls) of None \<Rightarrow> before_ts | Some t \<Rightarrow> Some t)
      in \<lparr>collected_count = length urls,
          target_count = target,
          latest_post_timestamp = or_else latest before_ts,
          before_timestamp = before_ts,
          collected_post_ids = ids_of_urls urls,
          cp_is_collection_complete = (int (length urls) \<ge> target)\<rparr>)"

definition save_url_collection_progress ::
  "'p crawler \<Rightarrow> url_item list \<Rightarrow> int option \<Rightarrow> int \<Rightarrow> 'p crawler outcome" where
  "save_url_collection_progress c urls before_ts target =
     except_Exception
       (save_progress c 1 urls (int (length urls) \<ge> target)
          (Some (progress_of urls before_ts target)))"

text \<open>
  The state an outcome carries. The callers of the save methods go on with it: these
  methods end in \<open>except Exception\<close> and no write raises anything else.
\<close>

fun state_of :: "'a outcome \<Rightarrow> 'a" where
  "state_of (Returns s) = s"
| "state_of (Raises e s) = s"
| "state_of (Killed s) = s"

subsection \<open>One page\<close>

text \<open>
  The body of \<open>for post in new_posts\<close> for one item: nothing happens once the target is
  reached (the \<open>break\<close>), for an item with a missing or falsy field, and for an
  identifier already in the set.
\<close>

definition add_post :: "int \<Rightarrow> collect_state \<Rightarrow> api_post \<Rightarrow> collect_state" where
  "add_post target s p =
     (if int (length (collected_urls s)) \<ge> target then s
      else
        case (p_id p, p_permalink p, p_created_utc p) of
          (Some post_id, Some permalink, Some ts) \<Rightarrow>
            if post_id \<noteq> [] \<and> permalink \<noteq> [] \<and> ts \<noteq> 0 then
              (if post_id \<in> collected_ids s then s
               else s\<lparr>collected_urls :=
                         collected_urls s @
                           [\<lparr>url = ''https://www.reddit.com'' @ permalink,
                             created_utc = Some ts\<rparr>],
                       collected_ids := insert post_id (collected_ids s)\<rparr>)
            else s
        | _ \<Rightarrow> s)"

definition add_posts :: "int \<Rightarrow> collect_state \<Rightarrow> api_post list \<Rightarrow> collect_state" where
  "add_posts target s ps = foldl (add_post target) s ps"

text \<open>
  What one turn of the \<open>while\<close> loop does with the answer to its request:
  it goes on to the next turn, or leaves the loop by \<open>break\<close>, or a
  \<open>KeyboardInterrupt\<close> leaves it.
\<close>

datatype turn = Continue | Break | Interrupt

definition on_error :: "nat \<Rightarrow> collect_state \<Rightarrow> turn \<times> collect_state" where
  "on_error ceiling s =
     (let s1 = s\<lparr>consecutive_errors := consecutive_errors s + 1\<rparr>
      in (if consecutive_errors s1 \<ge> ceiling then Break else Continue, s1))"

definition collect_turn ::
  "'p crawler \<Rightarrow> collect_state \<Rightarrow> response \<Rightarrow> turn \<times> collect_state \<times> 'p crawler" where
  "collect_turn c s r =
     (case r of
        Interrupted \<Rightarrow> (Interrupt, s, c)
      | Timeout \<Rightarrow> (let (t, s1) = on_error 5 s in (t, s1, c))
      | RequestException \<Rightarrow> (let (t, s1) = on_error 5 s in (t, s1, c))
      | Http status b \<Rightarrow>
          if status \<noteq> 200 then (let (t, s1) = on_error 3 s in (t, s1, c))
          else
            (case b of
               NotJson \<Rightarrow> (let (t, s1) = on_error 5 s in (t, s1, c))
             | Json new_posts \<Rightarrow>
                 if new_posts = [] then (Break, s, c)
                 else
                   let s1 = add_posts (max_posts c) s new_posts in
                   (case p_created_utc (last new_posts) of
                      None \<Rightarrow> (let (t, s2) = on_error 3 s1 in (t, s2, c))
                    | Some ts \<Rightarrow>
                        let s2 = s1\<lparr>before_cursor := Some ts, consecutive_errors := 0\<rparr>;
                            n = length (collected_urls s2)
                        in if n - last_save_count s2 \<ge> 50 \<or> n mod 250 = 0 then
                             (Continue, s2\<lparr>last_save_count := n\<rparr>,
                              state_of (save_url_collection_progress c (collected_urls s2)
                                          (before_cursor s2) (max_posts c)))
                           else (Continue, s2, c))))"

text \<open>
  The \<open>while\<close> loop, on the answers to its requests in the order they come. When the
  answers run out while the loop still asks, the process stops there.
\<close>

fun collect_loop ::
  "'p crawler \<Rightarrow> collect_state \<Rightarrow> response list \<Rightarrow> (turn \<times> collect_state \<times> 'p crawler) outcome" where
  "collect_loop c s [] =
     (if int (length (collected_urls s)) < max_posts c then Killed (Continue, s, c)
      else Returns (Continue, s, c))"
| "collect_loop c s (r # rest) =
     (if int (length (collected_urls s)) < max_posts c then
        (case collect_turn c s r of
           (Continue, s1, c1) \<Rightarrow> collect_loop c1 s1 rest
         | (Break, s1, c1) \<Rightarrow> Returns (Break, s1, c1)
         | (Interrupt, s1, c1) \<Rightarrow> Raises KeyboardInterrupt (Interrupt, s1, c1))
      else Returns (Continue, s, c))"

text \<open>\<open>xs[:n]\<close> of Python: a negative \<open>n\<close> counts from the end.\<close>

definition py_take :: "int \<Rightarrow> 'a list \<Rightarrow> 'a list" where
  "py_take n xs = (if n \<ge> 0 then take (nat n) xs else take (length xs - nat (- n)) xs)"

text \<open>The local state of \<open>collect_post_urls\<close> before its loop.\<close>

definition initial_collect_state ::
  "url_item list \<Rightarrow> collection_progress option \<Rightarrow> collect_state" where
  "initial_collect_state existing_urls progress =
     (case progress of
        Some p \<Rightarrow>
          \<lparr>collected_urls = existing_urls, before_cursor = before_timestamp p,
           collected_ids = collected_post_ids p, consecutive_errors = 0,
           last_save_count = length existing_urls\<rparr>
      | None \<Rightarrow>
          \<lparr>collected_urls = existing_urls, before_cursor = None,
           collected_ids = ids_of_urls existing_urls, consecutive_errors = 0,
           last_save_count = length existing_urls\<rparr>)"

text \<open>
  \<open>collect_post_urls\<close>: the list it returns and the crawler. A \<open>KeyboardInterrupt\<close>
  saves the progress and is raised again; otherwise the final save and the truncated list.
\<close>

definition collect_post_urls ::
  "'p crawler \<Rightarrow> string \<Rightarrow> url_item list \<Rightarrow> collection_progress option \<Rightarrow> response list \<Rightarrow>
     (url_item list \<times> 'p crawler) outcome" where
  "collect_post_urls c target_url existing_urls progress rs =
     (if contains ''/comments/'' target_url then
        Returns ([\<lparr>url = target_url, created_utc = None\<rparr>], c)
      else if extract_subreddit_name target_url = [] \<or>
              extract_subreddit_name target_url = ''unknown_subreddit'' then
        Returns ([], c)
      else
        (case collect_loop c (initial_collect_state existing_urls progress) rs of
           Killed (t, s, c1) \<Rightarrow> Killed (collected_urls s, c1)
         | Raises e (t, s, c1) \<Rightarrow>
             Raises e (collected_urls s,
               state_of (save_url_collection_progress c1 (collected_urls s) (before_cursor s) (max_posts c1)))
         | Returns (t, s, c1) \<Rightarrow>
             let n = length (collected_urls s) in
             if n \<noteq> last_save_count s \<or> int n \<ge> max_posts c1 then
               Returns (py_take (max_posts c1) (collected_urls s),
                 state_of (save_url_collection_progress c1 (collected_urls s) (before_cursor s)
                             (max_posts c1)))
             else Returns (py_take (max_posts c1) (collected_urls s), c1)))"




text \<open>
  What the claims about deduplication speak of. The identifier of a candidate is what
  \<open>_extract_post_id\<close> reads from its URL (a candidate stores nothing else). An item
  of the API is consistent when the URL built from its permalink carries its \<open>id\<close>. The
  invariant of the collector: every candidate has an identifier, no identifier occurs
  twice, and the set of identifiers is the dedup set.
\<close>

definition candidate_ids :: "url_item list \<Rightarrow> string option list" where
  "candidate_ids us = map (\<lambda>u. extract_post_id (url u)) us"



definition dedup_invariant :: "collect_state \<Rightarrow> bool" where
  "dedup_invariant s =
     (distinct (candidate_ids (collected_urls s)) \<and>
      None \<notin> set (candidate_ids (collected_urls s)) \<and>
      collected_ids s = ids_of_urls (collected_urls s))"



text \<open>
  What the claim about resuming speaks of. Two states of the loop make the same progress
  when they agree on everything but \<open>last_save_count\<close>, which only decides when the
  progress is saved. The result of \<open>collect_post_urls\<close> without the crawler. A resumed
  collection: the progress of a loop state is saved with \<open>save_url_collection_progress\<close>,
  and a new run loads it with \<open>load_progress\<close> and collects on further answers.
\<close>

definition same_progress :: "collect_state \<Rightarrow> collect_state \<Rightarrow> bool" where
  "same_progress s s' =
     (collected_urls s = collected_urls s' \<and> before_cursor s = before_cursor s' \<and>
      collected_ids s = collected_ids s' \<and> consecutive_errors s = consecutive_errors s')"





section \<open>Phase 2 and the driver: \<open>crawl_posts\<close>\<close>

text \<open>
  What happens at one candidate: \<open>fetch_post_json\<close> returns a post record, or returns
  \<open>None\<close> (it catches every \<open>Exception\<close> itself), or a \<open>KeyboardInterrupt\<close> ends it;
  and the pause \<open>page.wait_for_timeout\<close> that follows, in the \<open>try\<close> and again in its
  handler, passes, raises, or is interrupted.
\<close>

datatype 'p fetch_result = Fetched 'p | FetchedNone | FetchInterrupted

datatype wait_result = WaitOk | WaitRaises | WaitInterrupted

datatype 'p fetch_event = Event "'p fetch_result" wait_result wait_result

text \<open>The local variables of the loop, with the crawler.\<close>

record 'p fetch_state =
  current_index :: int
  consecutive_failures :: nat
  crawler_of :: "'p crawler"

text \<open>\<open>url_list[index]\<close>: a negative index counts from the end, and \<open>IndexError\<close> beyond.\<close>

definition py_index :: "'a list \<Rightarrow> int \<Rightarrow> 'a option" where
  "py_index xs i =
     (if 0 \<le> i \<and> i < int (length xs) then Some (xs ! nat i)
      else if i < 0 \<and> - int (length xs) \<le> i then Some (xs ! nat (int (length xs) + i))
      else None)"

text \<open>
  The \<open>try\<close> statement in the body of the loop, after \<open>current_index = index + 1\<close>:
  it ends the turn, or leaves the loop by \<open>break\<close>, or an exception leaves it
  (from the pause in the handler, or a \<open>KeyboardInterrupt\<close>).
\<close>

datatype loop_turn = Next | Leave | Propagate exn

definition handler_turn :: "'p fetch_state \<Rightarrow> wait_result \<Rightarrow> loop_turn \<times> 'p fetch_state" where
  "handler_turn s w2 =
     (let s1 = s\<lparr>consecutive_failures := consecutive_failures s + 1\<rparr>
      in if consecutive_failures s1 \<ge> 3 then (Leave, s1)
         else case w2 of
                WaitOk \<Rightarrow> (Next, s1)
              | WaitRaises \<Rightarrow> (Propagate Exception, s1)
              | WaitInterrupted \<Rightarrow> (Propagate KeyboardInterrupt, s1))"

definition pause_turn ::
  "'p fetch_state \<Rightarrow> wait_result \<Rightarrow> wait_result \<Rightarrow> loop_turn \<times> 'p fetch_state" where
  "pause_turn s w1 w2 =
     (case w1 of
        WaitOk \<Rightarrow> (Next, s)
      | WaitRaises \<Rightarrow> handler_turn s w2
      | WaitInterrupted \<Rightarrow> (Propagate KeyboardInterrupt, s))"

definition fetch_turn :: "'p fetch_state \<Rightarrow> 'p fetch_event \<Rightarrow> loop_turn \<times> 'p fetch_state" where
  "fetch_turn s ev =
     (case ev of Event r w1 w2 \<Rightarrow>
        (case r of
           FetchInterrupted \<Rightarrow> (Propagate KeyboardInterrupt, s)
         | Fetched post_data \<Rightarrow>
             let c1 = (crawler_of s)\<lparr>all_posts_data := all_posts_data (crawler_of s) @ [post_data]\<rparr>;
                 c2 = (if length (all_posts_data c1) mod 10 = 0
                       then state_of (save_data c1 (current_index s)) else c1)
             in pause_turn (s\<lparr>consecutive_failures := 0, crawler_of := c2\<rparr>) w1 w2
         | FetchedNone \<Rightarrow>
             let s1 = s\<lparr>consecutive_failures := consecutive_failures s + 1\<rparr>
             in if consecutive_failures s1 \<ge> 3 then (Leave, s1) else pause_turn s1 w1 w2))"

text \<open>
  The loop \<open>for index in range(current_index - 1, total_posts)\<close>, on the list of the
  indices still to visit and the events of the run. When the events run out while
  candidates remain, the process stops there.
\<close>

fun fetch_loop ::
  "url_item list \<Rightarrow> int list \<Rightarrow> 'p fetch_event list \<Rightarrow> 'p fetch_state \<Rightarrow> 'p fetch_state outcome" where
  "fetch_loop url_list [] evs s = Returns s"
| "fetch_loop url_list (index # rest) [] s = Killed s"
| "fetch_loop url_list (index # rest) (ev # evs) s =
     (case py_index url_list index of
        None \<Rightarrow> Raises Exception s
      | Some url_item \<Rightarrow>
          (case fetch_turn (s\<lparr>current_index := index + 1\<rparr>) ev of
             (Next, s1) \<Rightarrow> fetch_loop url_list rest evs s1
           | (Leave, s1) \<Rightarrow> Returns s1
           | (Propagate e, s1) \<Rightarrow> Raises e s1))"

text \<open>
  The environment of one run of \<open>crawl_posts\<close>: the answers of the search API, whether
  \<open>init_browser\<close> succeeds, the events of Phase 2, and whether \<open>os.remove\<close> succeeds.
\<close>

record 'p run =
  responses :: "response list"
  browser_starts :: bool
  events :: "'p fetch_event list"
  remove_succeeds :: bool

text \<open>
  The \<open>try\<close> block of \<open>crawl_posts\<close>. Its result carries \<open>completed_normally\<close> and the
  loop state, whose \<open>current_index\<close> the \<open>finally\<close> block reads.
\<close>

definition phase2 ::
  "'p run \<Rightarrow> url_item list \<Rightarrow> 'p fetch_state \<Rightarrow> (bool \<times> 'p fetch_state) outcome" where
  "phase2 env url_list s =
     (if \<not> browser_starts env then Raises Exception (False, s)
      else
        case fetch_loop url_list [current_index s - 1 .. int (length url_list) - 1] (events env) s of
          Returns s1 \<Rightarrow> Returns (current_index s1 \<ge> int (length url_list), s1)
        | Raises e s1 \<Rightarrow> Raises e (False, s1)
        | Killed s1 \<Rightarrow> Killed (False, s1))"

definition crawl_try :: "'p crawler \<Rightarrow> 'p run \<Rightarrow> (bool \<times> 'p fetch_state) outcome" where
  "crawl_try c env =
     (let l = load_progress c;
          s = \<lparr>current_index = ld_index l, consecutive_failures = 0, crawler_of = ld_crawler l\<rparr>
      in
        if ld_complete l \<and> ld_index l > 1 then phase2 env (ld_urls l) s
        else if \<not> ld_complete l then
          (case collect_post_urls (ld_crawler l) (subreddit_url c) (ld_urls l) (ld_progress l)
                  (responses env) of
             Killed (urls, c1) \<Rightarrow> Killed (False, s\<lparr>crawler_of := c1\<rparr>)
           | Raises e (urls, c1) \<Rightarrow> Raises e (False, s\<lparr>crawler_of := c1\<rparr>)
           | Returns (url_list, c1) \<Rightarrow>
               if url_list = [] then Returns (False, s\<lparr>crawler_of := c1\<rparr>)
               else
                 phase2 env url_list
                   (s\<lparr>current_index := 1,
                      crawler_of := state_of (save_progress c1 1 url_list False None)\<rparr>))
        else phase2 env (ld_urls l) s)"





text \<open>
  What the claims about the stored index speak of: the index that a later state of the
  state file stores is not below the one of an earlier state (a file that cannot be read
  stores none, and Phase 2 never makes an unreadable file readable); and the stored index
  is not ahead of the loop.
\<close>

fun index_le :: "int option \<Rightarrow> int option \<Rightarrow> bool" where
  "index_le (Some i) (Some j) = (i \<le> j)"
| "index_le None (Some j) = False"
| "index_le a None = True"


section \<open>The challenge check: \<open>_check_and_handle_captcha_or_login\<close>\<close>















section \<open>Concrete inputs\<close>

text \<open>
  Three candidates of a subreddit and a crawler with the target of two posts, before its
  first run; the fetched post records are numbers here.
\<close>

definition url1 :: url_item where
  "url1 = \<lparr>url = ''https://www.reddit.com/r/dogs/comments/a1/x/'', created_utc = Some 30\<rparr>"

definition url2 :: url_item where
  "url2 = \<lparr>url = ''https://www.reddit.com/r/dogs/comments/a2/y/'', created_utc = Some 20\<rparr>"


definition crawler0 :: "nat crawler" where
  "crawler0 =
     \<lparr>subreddit_url = ''https://www.reddit.com/r/dogs/'', max_posts = 2, all_posts_data = [],
      total_crawled_count = 0, state_file = Absent, output_file = Absent, writes = []\<rparr>"

text \<open>A checkpoint of Phase 2 (two candidates, the second one reached) and one of Phase 1.\<close>

definition phase2_doc :: state_data where
  "phase2_doc = state_document crawler0 2 [url1, url2] False None"

definition phase1_doc :: state_data where
  "phase1_doc =
     state_document (crawler0\<lparr>max_posts := 3\<rparr>) 1 [url1] False
       (Some (progress_of [url1] (Some 30) 3))"

text \<open>
  The loop of Phase 2 with nine records pending, before the tenth candidate, on a disk
  whose next write fails.
\<close>

definition pending9 :: "nat fetch_state" where
  "pending9 =
     \<lparr>current_index = 10, consecutive_failures = 0,
      crawler_of = crawler0\<lparr>max_posts := 20, all_posts_data := [1, 2, 3, 4, 5, 6, 7, 8, 9],
                    state_file := Content (state_document crawler0 1 [] False None),
                    writes := [OpenFails]\<rparr>\<rparr>"

text \<open>The checkpoint of Phase 2 before the second candidate was reached.\<close>

definition phase2_doc_before :: state_data where
  "phase2_doc_before = state_document crawler0 1 [url1, url2] False None"

text \<open>What \<open>load_progress\<close> returns for a fresh start: \<open>(1, [], False, {})\<close>.\<close>

definition fresh_start :: "'p loaded \<Rightarrow> bool" where
  "fresh_start l = (ld_index l = 1 \<and> ld_urls l = [] \<and> \<not> ld_complete l \<and> ld_progress l = None)"


























section \<open>Properties of the comment tree\<close>

lemma parse_comment_None_iff: "parse_comment fts c = None \<longleftrightarrow> is_more c"
  by (cases c) (simp add: is_more_def Let_def)

lemma mirrors_list_parsed:
  "(\<And>c p. c \<in> set cs \<Longrightarrow> parse_comment fts c = Some p \<Longrightarrow> mirrors c p) \<Longrightarrow>
   mirrors_list (filter (\<lambda>c. \<not> is_more c) cs) (keep_parsed (map (parse_comment fts) cs))"
proof (induction cs)
  case Nil
  show ?case by simp
next
  case (Cons c cs)
  have rest: "mirrors_list (filter (\<lambda>c. \<not> is_more c) cs) (keep_parsed (map (parse_comment fts) cs))"
    using Cons by simp
  show ?case
  proof (cases "parse_comment fts c")
    case None
    then have "is_more c" by (simp add: parse_comment_None_iff)
    with None rest show ?thesis by simp
  next
    case (Some p)
    then have "\<not> is_more c" using parse_comment_None_iff [of fts c] by simp
    moreover have "mirrors c p" using Cons.prems Some by simp
    ultimately show ?thesis using Some rest by simp
  qed
qed

lemma replies_of_parsed:
  "parse_comment fts c = Some p \<Longrightarrow>
   c_replies p = keep_parsed (map (parse_comment fts) (children_of c)) \<and>
   c_reply_count p = length (c_replies p)"
  by (cases c rule: children_of.cases) (auto simp: Let_def split: if_splits)

lemma parse_comment_mirrors: "parse_comment fts c = Some p \<Longrightarrow> mirrors c p"
proof (induction fts c arbitrary: p rule: parse_comment.induct)
  case (1 fts k d)
  let ?c = "RawComment k d"
  have nm: "\<not> is_more ?c" using "1.prems" parse_comment_None_iff [of fts ?c] by simp
  then have k: "k \<noteq> Some ''more''" by (simp add: is_more_def)
  have ih: "\<And>c q. c \<in> set (children_of ?c) \<Longrightarrow> parse_comment fts c = Some q \<Longrightarrow> mirrors c q"
  proof -
    fix c q assume c: "c \<in> set (children_of ?c)" and q: "parse_comment fts c = Some q"
    from c obtain a b s t cs where d: "d = Some (RawData a b s t (RepliesDict cs))" and "c \<in> set cs"
      by (cases ?c rule: children_of.cases) auto
    then show "mirrors c q" using "1.IH" [OF k d refl refl _ q] by simp
  qed
  obtain a t s ct rs n where p: "p = Comment a t s ct rs n" by (cases p)
  from replies_of_parsed [OF "1.prems"] p
  have rs: "rs = keep_parsed (map (parse_comment fts) (children_of ?c))" and n: "n = length rs"
    by simp_all
  show ?case
    unfolding p using nm n rs mirrors_list_parsed [of "children_of ?c" fts, OF ih] by simp
qed

lemma length_keep_parsed:
  "length (keep_parsed (map (parse_comment fts) cs)) = length (filter (\<lambda>c. \<not> is_more c) cs)"
proof (induction cs)
  case Nil
  show ?case by simp
next
  case (Cons c cs)
  show ?case
  proof (cases "parse_comment fts c")
    case None
    then have "is_more c" by (simp add: parse_comment_None_iff)
    with None Cons show ?thesis by simp
  next
    case (Some p)
    then have "\<not> is_more c" using parse_comment_None_iff [of fts c] by simp
    with Some Cons show ?thesis by simp
  qed
qed

lemma counts_exact_keep_parsed:
  "(\<And>c p. c \<in> set cs \<Longrightarrow> parse_comment fts c = Some p \<Longrightarrow> counts_exact p) \<Longrightarrow>
   list_all counts_exact (keep_parsed (map (parse_comment fts) cs))"
proof (induction cs)
  case Nil
  show ?case by simp
next
  case (Cons c cs)
  have rest: "list_all counts_exact (keep_parsed (map (parse_comment fts) cs))"
    by (rule Cons.IH) (metis Cons.prems list.set_intros(2))
  show ?case
  proof (cases "parse_comment fts c")
    case None
    with rest show ?thesis by simp
  next
    case (Some p)
    then have "counts_exact p" by (metis Cons.prems list.set_intros(1))
    with Some rest show ?thesis by simp
  qed
qed

lemma counts_exact_parsed: "parse_comment fts c = Some p \<Longrightarrow> counts_exact p"
proof (induction fts c arbitrary: p rule: parse_comment.induct)
  case (1 fts k d)
  let ?c = "RawComment k d"
  have k: "k \<noteq> Some ''more''" using "1.prems" by (auto split: if_splits)
  have ih: "\<And>c q. c \<in> set (children_of ?c) \<Longrightarrow> parse_comment fts c = Some q \<Longrightarrow> counts_exact q"
  proof -
    fix c q assume c: "c \<in> set (children_of ?c)" and q: "parse_comment fts c = Some q"
    from c obtain a b s t cs where d: "d = Some (RawData a b s t (RepliesDict cs))" and "c \<in> set cs"
      by (cases ?c rule: children_of.cases) auto
    then show "counts_exact q" using "1.IH" [OF k d refl refl _ q] by simp
  qed
  obtain a t s ct rs n where p: "p = Comment a t s ct rs n" by (cases p)
  from replies_of_parsed [OF "1.prems"] p
  have rs: "rs = keep_parsed (map (parse_comment fts) (children_of ?c))" and n: "n = length rs"
    by simp_all
  show ?case
    unfolding p using n rs counts_exact_keep_parsed [of "children_of ?c" fts, OF ih] by simp
qed

text \<open>
  Claim C8. A node tagged \<open>more\<close> is not parsed (it yields \<open>None\<close> and is dropped by its
  parent); every other node is parsed, its replies are exactly the parsed non-placeholder
  children, in order and at every depth, every \<open>reply_count\<close> in the tree is the number
  of replies of its node, which is the number of children that are not placeholders; and a
  node whose \<open>replies\<close> field is absent or not an object has no replies and the count 0.
  The function is total (its termination is proved at its definition).
\<close>

theorem parse_comment_tree:
  "(is_more c \<longrightarrow> parse_comment fts c = None) \<and>
   (\<not> is_more c \<longrightarrow>
      (\<exists>p. parse_comment fts c = Some p \<and> mirrors c p \<and> counts_exact p \<and>
           c_replies p = keep_parsed (map (parse_comment fts) (children_of c)) \<and>
           c_reply_count p = length (filter (\<lambda>x. \<not> is_more x) (children_of c)) \<and>
           ((\<forall>cs. d_replies (data_of c) \<noteq> RepliesDict cs) \<longrightarrow>
              c_replies p = [] \<and> c_reply_count p = 0)))"
proof (intro conjI impI)
  assume "is_more c"
  then show "parse_comment fts c = None" by (simp add: parse_comment_None_iff)
next
  assume "\<not> is_more c"
  then obtain p where p: "parse_comment fts c = Some p"
    using parse_comment_None_iff [of fts c] by (cases "parse_comment fts c") auto
  note r = replies_of_parsed [OF p]
  have cnt: "c_reply_count p = length (filter (\<lambda>x. \<not> is_more x) (children_of c))"
    using r length_keep_parsed [of fts "children_of c"] by simp
  have leaf: "(\<forall>cs. d_replies (data_of c) \<noteq> RepliesDict cs) \<longrightarrow> children_of c = []"
    by (cases c rule: children_of.cases) (auto simp: data_of_def get_or_def)
  have "(\<forall>cs. d_replies (data_of c) \<noteq> RepliesDict cs) \<longrightarrow>
          c_replies p = [] \<and> c_reply_count p = 0"
    using leaf r by simp
  with p parse_comment_mirrors [OF p] counts_exact_parsed [OF p] r cnt
  show "\<exists>p. parse_comment fts c = Some p \<and> mirrors c p \<and> counts_exact p \<and>
           c_replies p = keep_parsed (map (parse_comment fts) (children_of c)) \<and>
           c_reply_count p = length (filter (\<lambda>x. \<not> is_more x) (children_of c)) \<and>
           ((\<forall>cs. d_replies (data_of c) \<noteq> RepliesDict cs) \<longrightarrow>
              c_replies p = [] \<and> c_reply_count p = 0)"
    by blast
qed

theorem parse_comment_tree_witness:
  "(is_more fixture_more \<and> parse_comment (\<lambda>t. None) fixture_more = None) \<and>
   (\<not> is_more fixture_leaf \<and> (\<forall>cs. d_replies (data_of fixture_leaf) \<noteq> RepliesDict cs) \<and>
      parse_comment (\<lambda>t. None) fixture_leaf = Some (Comment ''bob'' ''yes'' 3 ''N/A'' [] 0)) \<and>
   (\<not> is_more fixture_tree \<and>
      parse_comment (\<lambda>t. None) fixture_tree =
        Some (Comment ''ann'' ''hello'' 7 ''N/A''
               [Comment ''bob'' ''yes'' 3 ''N/A'' [] 0,
                Comment ''cy'' ''deep'' 1 ''N/A'' [Comment ''bob'' ''yes'' 3 ''N/A'' [] 0] 1] 2))"
  using parse_comment_tree [of fixture_more "\<lambda>t. None"]
        parse_comment_tree [of fixture_leaf "\<lambda>t. None"]
        parse_comment_tree [of fixture_tree "\<lambda>t. None"]
  by (simp add: is_more_def fixture_more_def fixture_leaf_def fixture_tree_def data_of_def
        get_or_def convert_time_def)

section \<open>Properties of the save methods\<close>

lemma write_state_file_outcome:
  "(\<exists>c'. write_state_file c doc = Returns c') \<or> (\<exists>c'. write_state_file c doc = Raises Exception c')"
  by (cases "fst (next_write c)")
     (auto simp: write_state_file_def split: prod.splits)

lemma write_output_file_outcome:
  "(\<exists>c'. write_output_file c doc = Returns c') \<or> (\<exists>c'. write_output_file c doc = Raises Exception c')"
  by (cases "fst (next_write c)")
     (auto simp: write_output_file_def split: prod.splits)

lemma save_progress_returns: "\<exists>c'. save_progress c i urls b p = Returns c'"
  using write_state_file_outcome [of c "state_document c i urls b p"]
  by (auto simp: save_progress_def save_progress_try_def)

lemma update_progress_index_returns: "\<exists>c'. update_progress_index c i = Returns c'"
proof (cases "state_file c")
  case (Content sd)
  then show ?thesis
    using write_state_file_outcome [of c "updated_document c sd i"]
    by (auto simp: update_progress_index_def update_progress_index_try_def)
qed (simp_all add: update_progress_index_def update_progress_index_try_def)

lemma save_data_returns: "\<exists>c'. save_data c i = Returns c'"
proof (cases "all_posts_data c = []")
  case True
  then show ?thesis by (simp add: save_data_def save_data_try_def)
next
  case False
  from write_output_file_outcome [of c "existing_data c @ all_posts_data c"]
  show ?thesis
  proof
    assume "\<exists>c'. write_output_file c (existing_data c @ all_posts_data c) = Returns c'"
    then obtain c1 where w: "write_output_file c (existing_data c @ all_posts_data c) = Returns c1" ..
    obtain c2 where
      "update_progress_index
         (c1\<lparr>total_crawled_count := total_crawled_count c1 + length (all_posts_data c1),
             all_posts_data := []\<rparr>) i = Returns c2"
      using update_progress_index_returns by blast
    with False w show ?thesis by (simp add: save_data_def save_data_try_def)
  next
    assume "\<exists>c'. write_output_file c (existing_data c @ all_posts_data c) = Raises Exception c'"
    with False show ?thesis by (auto simp: save_data_def save_data_try_def)
  qed
qed

lemma save_url_collection_progress_returns:
  "\<exists>c'. save_url_collection_progress c urls b t = Returns c'"
  using save_progress_returns [of c 1 urls "int (length urls) \<ge> t" "Some (progress_of urls b t)"]
  by (auto simp: save_url_collection_progress_def)

lemma save_data_failed_write:
  assumes "writes c = w # ws" "w \<noteq> WriteOk" "all_posts_data c \<noteq> []"
  shows "state_file (state_of (save_data c i)) = state_file c \<and>
         all_posts_data (state_of (save_data c i)) = all_posts_data c \<and>
         total_crawled_count (state_of (save_data c i)) = total_crawled_count c"
  using assms
  by (cases w) (simp_all add: save_data_def save_data_try_def write_output_file_def next_write_def)

text \<open>
  Claim C5, as amended. A write failure while saving the checkpoint or the output file is
  not fatal: \<open>save_progress\<close>, \<open>update_progress_index\<close> and \<open>save_data\<close> catch it,
  log it and return to their caller, whatever the outcome of the writes. When the write
  of the output file fails, \<open>save_data\<close> leaves the state file as it is and keeps the
  pending records in memory.
\<close>

theorem save_failures_are_swallowed:
  "(\<exists>c'. save_progress c i urls b p = Returns c') \<and>
   (\<exists>c'. update_progress_index c i = Returns c') \<and>
   (\<exists>c'. save_data c i = Returns c') \<and>
   (writes c \<noteq> [] \<and> hd (writes c) \<noteq> WriteOk \<and> all_posts_data c \<noteq> [] \<longrightarrow>
      state_file (state_of (save_data c i)) = state_file c \<and>
      all_posts_data (state_of (save_data c i)) = all_posts_data c)"
proof -
  have "writes c \<noteq> [] \<and> hd (writes c) \<noteq> WriteOk \<and> all_posts_data c \<noteq> [] \<longrightarrow>
      state_file (state_of (save_data c i)) = state_file c \<and>
      all_posts_data (state_of (save_data c i)) = all_posts_data c"
  proof
    assume a: "writes c \<noteq> [] \<and> hd (writes c) \<noteq> WriteOk \<and> all_posts_data c \<noteq> []"
    then obtain w ws where "writes c = w # ws" by (cases "writes c") auto
    with a save_data_failed_write [of c w ws i]
    show "state_file (state_of (save_data c i)) = state_file c \<and>
      all_posts_data (state_of (save_data c i)) = all_posts_data c" by simp
  qed
  with save_progress_returns [of c i urls b p] update_progress_index_returns [of c i]
    save_data_returns [of c i]
  show ?thesis by blast
qed

theorem save_failures_are_swallowed_witness:
  "writes (crawler_of pending9) \<noteq> [] \<and> hd (writes (crawler_of pending9)) \<noteq> WriteOk \<and>
   all_posts_data (crawler_of pending9) \<noteq> [] \<and>
   state_file (state_of (save_data (crawler_of pending9) 10)) = state_file (crawler_of pending9) \<and>
   all_posts_data (state_of (save_data (crawler_of pending9) 10)) = [1, 2, 3, 4, 5, 6, 7, 8, 9]"
  using save_failures_are_swallowed [of "crawler_of pending9" 10]
  by (simp add: pending9_def crawler0_def)

text \<open>
  Claim C5 as stated fails: with a disk whose next write fails, \<open>save_progress\<close> returns
  to its caller with the state file unchanged, and the loop of Phase 2, whose tenth
  pending record triggers a save that fails, goes on to the next candidate with nothing
  written.
\<close>

theorem write_failure_not_fatal_counterexample:
  "save_progress (crawler0\<lparr>writes := [OpenFails]\<rparr>) 1 [url1, url2] False None
     = Returns crawler0 \<and>
   fst (fetch_turn pending9 (Event (Fetched 10) WaitOk WaitOk)) = Next \<and>
   length (all_posts_data (crawler_of (snd (fetch_turn pending9 (Event (Fetched 10) WaitOk WaitOk))))) = 10 \<and>
   output_file (crawler_of (snd (fetch_turn pending9 (Event (Fetched 10) WaitOk WaitOk)))) = Absent"
  by (simp add: save_progress_def save_progress_try_def write_state_file_def next_write_def
        crawler0_def pending9_def fetch_turn_def pause_turn_def save_data_def save_data_try_def
        write_output_file_def existing_data_def)

section \<open>Properties of \<open>load_progress\<close>\<close>

lemma load_progress_complete:
  "state_file c = Content sd \<Longrightarrow>
   ld_complete (load_progress c) = (max_posts c \<le> int (length (collected_urls_with_source sd)))"
  by (auto simp: load_progress_def Let_def split: option.splits)

lemma load_progress_urls_complete:
  "state_file c = Content sd \<Longrightarrow> max_posts c \<le> int (length (collected_urls_with_source sd)) \<Longrightarrow>
   ld_urls (load_progress c) = collected_urls_with_source sd"
  by (auto simp: load_progress_def Let_def split: option.splits)

lemma load_progress_flag:
  "state_file c = Content sd \<Longrightarrow>
   ld_index (load_progress (c\<lparr>state_file := Content (sd\<lparr>is_collection_complete := b\<rparr>)\<rparr>)) = ld_index (load_progress c) \<and>
   ld_urls (load_progress (c\<lparr>state_file := Content (sd\<lparr>is_collection_complete := b\<rparr>)\<rparr>)) = ld_urls (load_progress c) \<and>
   ld_complete (load_progress (c\<lparr>state_file := Content (sd\<lparr>is_collection_complete := b\<rparr>)\<rparr>)) = ld_complete (load_progress c) \<and>
   ld_progress (load_progress (c\<lparr>state_file := Content (sd\<lparr>is_collection_complete := b\<rparr>)\<rparr>)) = ld_progress (load_progress c)"
  by (auto simp: load_progress_def Let_def split: option.splits)

lemma crawl_try_complete:
  "ld_complete (load_progress c) \<Longrightarrow>
   crawl_try c env =
     phase2 env (ld_urls (load_progress c))
       \<lparr>current_index = ld_index (load_progress c), consecutive_failures = 0,
        crawler_of = ld_crawler (load_progress c)\<rparr>"
  by (simp add: crawl_try_def Let_def)

text \<open>
  Claim C10, as amended. \<open>load_progress\<close> decides the phase by comparing the number of
  stored URLs with the \<open>max_posts\<close> of the crawler that loads; the stored flag
  \<open>is_collection_complete\<close> has no influence on what it returns. So a checkpoint whose
  URL list is no longer than the \<open>max_posts\<close> stored with it is sent back to Phase 1 by
  any crawler with a larger \<open>max_posts\<close>, and a crawler whose \<open>max_posts\<close> is at most
  the number of stored URLs takes the collection as complete and starts fetching the
  stored URLs.
\<close>

theorem load_progress_recomputes_completeness:
  "state_file c = Content sd \<Longrightarrow>
   ld_complete (load_progress c) = (max_posts c \<le> int (length (collected_urls_with_source sd))) \<and>
   (ld_index (load_progress (c\<lparr>state_file := Content (sd\<lparr>is_collection_complete := b\<rparr>)\<rparr>)) = ld_index (load_progress c) \<and>
    ld_urls (load_progress (c\<lparr>state_file := Content (sd\<lparr>is_collection_complete := b\<rparr>)\<rparr>)) = ld_urls (load_progress c) \<and>
    ld_complete (load_progress (c\<lparr>state_file := Content (sd\<lparr>is_collection_complete := b\<rparr>)\<rparr>)) = ld_complete (load_progress c) \<and>
    ld_progress (load_progress (c\<lparr>state_file := Content (sd\<lparr>is_collection_complete := b\<rparr>)\<rparr>)) = ld_progress (load_progress c)) \<and>
   (int (length (collected_urls_with_source sd)) \<le> sd_max_posts sd \<and> sd_max_posts sd < max_posts c
      \<longrightarrow> \<not> ld_complete (load_progress c)) \<and>
   (max_posts c \<le> int (length (collected_urls_with_source sd))
      \<longrightarrow> ld_complete (load_progress c) \<and>
          ld_urls (load_progress c) = collected_urls_with_source sd \<and>
          crawl_try c env =
            phase2 env (collected_urls_with_source sd)
              \<lparr>current_index = ld_index (load_progress c), consecutive_failures = 0,
               crawler_of = ld_crawler (load_progress c)\<rparr>)"
proof -
  assume sd: "state_file c = Content sd"
  note a = load_progress_complete [OF sd]
  note b = load_progress_flag [OF sd, of b]
  have c: "int (length (collected_urls_with_source sd)) \<le> sd_max_posts sd \<and> sd_max_posts sd < max_posts c
      \<longrightarrow> \<not> ld_complete (load_progress c)"
    using a by auto
  have d: "max_posts c \<le> int (length (collected_urls_with_source sd))
      \<longrightarrow> ld_complete (load_progress c) \<and>
          ld_urls (load_progress c) = collected_urls_with_source sd \<and>
          crawl_try c env =
            phase2 env (collected_urls_with_source sd)
              \<lparr>current_index = ld_index (load_progress c), consecutive_failures = 0,
               crawler_of = ld_crawler (load_progress c)\<rparr>"
  proof
    assume m: "max_posts c \<le> int (length (collected_urls_with_source sd))"
    then have lc: "ld_complete (load_progress c)" using a by simp
    from load_progress_urls_complete [OF sd m] crawl_try_complete [OF lc, of env] lc
    show "ld_complete (load_progress c) \<and>
          ld_urls (load_progress c) = collected_urls_with_source sd \<and>
          crawl_try c env =
            phase2 env (collected_urls_with_source sd)
              \<lparr>current_index = ld_index (load_progress c), consecutive_failures = 0,
               crawler_of = ld_crawler (load_progress c)\<rparr>" by simp
  qed
  from a b c d show ?thesis by blast
qed

theorem load_progress_recomputes_completeness_witness:
  "state_file (crawler0\<lparr>max_posts := 3, state_file := Content phase2_doc\<rparr>) = Content phase2_doc \<and>
   int (length (collected_urls_with_source phase2_doc)) \<le> sd_max_posts phase2_doc \<and>
   sd_max_posts phase2_doc < max_posts (crawler0\<lparr>max_posts := 3, state_file := Content phase2_doc\<rparr>) \<and>
   \<not> ld_complete (load_progress (crawler0\<lparr>max_posts := 3, state_file := Content phase2_doc\<rparr>)) \<and>
   state_file (crawler0\<lparr>max_posts := 1, state_file := Content phase1_doc\<rparr>) = Content phase1_doc \<and>
   max_posts (crawler0\<lparr>max_posts := 1, state_file := Content phase1_doc\<rparr>)
     \<le> int (length (collected_urls_with_source phase1_doc)) \<and>
   ld_complete (load_progress (crawler0\<lparr>max_posts := 1, state_file := Content phase1_doc\<rparr>)) \<and>
   ld_urls (load_progress (crawler0\<lparr>max_posts := 1, state_file := Content phase1_doc\<rparr>)) = [url1]"
  using load_progress_recomputes_completeness
          [of "crawler0\<lparr>max_posts := 3, state_file := Content phase2_doc\<rparr>" phase2_doc]
        load_progress_recomputes_completeness
          [of "crawler0\<lparr>max_posts := 1, state_file := Content phase1_doc\<rparr>" phase1_doc]
  by (simp add: crawler0_def phase2_doc_def phase1_doc_def state_document_def)

text \<open>
  Claim C10 as stated fails for the smaller \<open>max_posts\<close>: the collection of one URL of a
  target of three is still incomplete for a crawler with the smaller target two, which
  goes on collecting.
\<close>

theorem smaller_max_posts_counterexample:
  "sd_max_posts phase1_doc = 3 \<and> max_posts crawler0 = 2 \<and>
   collected_urls_with_source phase1_doc = [url1] \<and>
   \<not> ld_complete (load_progress (crawler0\<lparr>state_file := Content phase1_doc\<rparr>)) \<and>
   ld_urls (load_progress (crawler0\<lparr>state_file := Content phase1_doc\<rparr>)) = [url1]"
  by (simp add: crawler0_def phase1_doc_def state_document_def load_progress_def Let_def)

section \<open>A save is not atomic\<close>

lemma write_state_file_during:
  "state_file (state_of (write_state_file c doc)) \<in> set (states_during_write doc (state_file c))"
  by (cases "writes c"; cases "hd (writes c)")
     (simp_all add: write_state_file_def next_write_def states_during_write_def)

lemma unreadable_is_fresh_start: "fresh_start (load_progress (c\<lparr>state_file := Unreadable\<rparr>))"
  by (simp add: fresh_start_def load_progress_def)

text \<open>
  Claim C6, as amended. A save of the checkpoint is not atomic: \<open>save_progress\<close> and
  \<open>update_progress_index\<close> write the document over the state file in place, and a write
  that raises leaves the file in one of the states it goes through. When the
  process is killed during the write, the file holds the previous content, or the new
  document in full, or it is unreadable; \<open>load_progress\<close> then returns the fresh start
  \<open>(1, [], False, {})\<close>: a partial document is never loaded as a checkpoint, but the
  previous checkpoint is lost.
\<close>

theorem checkpoint_written_in_place:
  "save_progress_try c i urls b p = write_state_file c (state_document c i urls b p) \<and>
   (state_file c = Content sd \<longrightarrow>
      update_progress_index_try c i = write_state_file c (updated_document c sd i)) \<and>
   state_file (state_of (write_state_file c doc)) \<in> set (states_during_write doc (state_file c)) \<and>
   (\<forall>f \<in> set (states_during_write doc (state_file c)).
      f = state_file c \<or> f = Content doc \<or>
      (f = Unreadable \<and> fresh_start (load_progress (c\<lparr>state_file := f\<rparr>))))"
proof -
  have a: "save_progress_try c i urls b p = write_state_file c (state_document c i urls b p)"
    by (simp add: save_progress_try_def)
  have u: "state_file c = Content sd \<longrightarrow>
      update_progress_index_try c i = write_state_file c (updated_document c sd i)"
    by (simp add: update_progress_index_try_def)
  have k: "\<forall>f \<in> set (states_during_write doc (state_file c)).
      f = state_file c \<or> f = Content doc \<or>
      (f = Unreadable \<and> fresh_start (load_progress (c\<lparr>state_file := f\<rparr>)))"
    using unreadable_is_fresh_start [of c] by (simp add: states_during_write_def)
  from a u write_state_file_during [of c doc] k show ?thesis by blast
qed

theorem checkpoint_written_in_place_witness:
  "state_file (crawler0\<lparr>state_file := Content phase2_doc_before\<rparr>) = Content phase2_doc_before \<and>
   update_progress_index_try (crawler0\<lparr>state_file := Content phase2_doc_before\<rparr>) 2
     = Returns (crawler0\<lparr>state_file := Content phase2_doc\<rparr>) \<and>
   Unreadable \<in> set (states_during_write phase2_doc (Content phase2_doc_before)) \<and>
   fresh_start (load_progress (crawler0\<lparr>state_file := Unreadable\<rparr>))"
  using checkpoint_written_in_place
          [of "crawler0\<lparr>state_file := Content phase2_doc_before\<rparr>" 2 "[]" False None
              phase2_doc_before phase2_doc]
  by (simp add: crawler0_def phase2_doc_def phase2_doc_before_def state_document_def
        updated_document_def write_state_file_def next_write_def states_during_write_def)

text \<open>
  Claim C6 as stated fails: the process is killed while \<open>update_progress_index\<close> writes the
  checkpoint of the second candidate over that of the first; the file is left emptied,
  and the next \<open>load_progress\<close> sees neither the previous checkpoint nor the new one, but
  a fresh start without any candidate.
\<close>

theorem save_not_atomic_counterexample:
  "update_progress_index_try (crawler0\<lparr>state_file := Content phase2_doc_before\<rparr>) 2
     = write_state_file (crawler0\<lparr>state_file := Content phase2_doc_before\<rparr>) phase2_doc \<and>
   states_during_write phase2_doc (Content phase2_doc_before) ! 1 = Unreadable \<and>
   ld_urls (load_progress (crawler0\<lparr>state_file := Unreadable\<rparr>)) = [] \<and>
   \<not> ld_complete (load_progress (crawler0\<lparr>state_file := Unreadable\<rparr>)) \<and>
   ld_urls (load_progress (crawler0\<lparr>state_file := Content phase2_doc_before\<rparr>)) = [url1, url2] \<and>
   ld_complete (load_progress (crawler0\<lparr>state_file := Content phase2_doc_before\<rparr>)) \<and>
   ld_urls (load_progress (crawler0\<lparr>state_file := Content phase2_doc\<rparr>)) = [url1, url2] \<and>
   ld_complete (load_progress (crawler0\<lparr>state_file := Content phase2_doc\<rparr>))"
  by (simp add: crawler0_def phase2_doc_def phase2_doc_before_def state_document_def
        updated_document_def update_progress_index_try_def states_during_write_def
        load_progress_def Let_def)

section \<open>Properties of the challenge check\<close>















section \<open>Properties of Phase 1\<close>


lemma state_of_except [simp]: "state_of (except_Exception r) = state_of r"
  by (cases r rule: except_Exception.cases) simp_all


lemma on_error_urls: "collected_urls (snd (on_error n s)) = collected_urls s"
  by (simp add: on_error_def Let_def)















section \<open>Deduplication\<close>







lemma dedup_invariant_other_fields [simp]:
  "dedup_invariant (s\<lparr>consecutive_errors := n\<rparr>) = dedup_invariant s"
  "dedup_invariant (s\<lparr>before_cursor := b\<rparr>) = dedup_invariant s"
  "dedup_invariant (s\<lparr>last_save_count := k\<rparr>) = dedup_invariant s"
  by (simp_all add: dedup_invariant_def)














section \<open>Resuming the collection\<close>



lemma same_progress_fields [simp]:
  "same_progress (s\<lparr>last_save_count := k\<rparr>) s' = same_progress s s'"
  "same_progress s (s'\<lparr>last_save_count := k\<rparr>) = same_progress s s'"
  by (simp_all add: same_progress_def)















section \<open>Properties of Phase 2\<close>







lemma index_le_refl [simp]: "index_le a a"
  by (cases a) simp_all







lemma sorted_upto_ge: "sorted [a .. b] \<and> (\<forall>i \<in> set [a .. b]. a \<le> i)"
  by simp









section \<open>Removal of the state file\<close>














end
